theory Spec2Isabelle
  imports Complex_Main "HOL-Library.Word"
begin

section \<open>Python values and exceptions used by api-tester.py\<close>

text \<open>
  Python integers are unbounded (\<open>int\<close>). Clock readings and durations are Python
  floats; they are idealised as \<open>real\<close>, which keeps the one property of float
  arithmetic the program depends on: dividing by zero raises \<open>ZeroDivisionError\<close>.
  Only the exceptions that the code below can raise and does not catch are values
  of \<open>py_error\<close>.
\<close>

datatype py_error = ZeroDivisionError | UnicodeDecodeError | ValueError

text \<open>\<open>a // b\<close> and \<open>a % b\<close> on Python ints: floor division, the remainder has the
  sign of the divisor (as \<open>div\<close> and \<open>mod\<close> on \<open>int\<close>), and a zero divisor raises.\<close>

definition py_floordiv :: "int \<Rightarrow> int \<Rightarrow> py_error + int" where
  "py_floordiv a b = (if b = 0 then Inl ZeroDivisionError else Inr (a div b))"

definition py_mod :: "int \<Rightarrow> int \<Rightarrow> py_error + int" where
  "py_mod a b = (if b = 0 then Inl ZeroDivisionError else Inr (a mod b))"

text \<open>\<open>a / b\<close> with a float operand: a zero divisor raises.\<close>

definition py_truediv :: "real \<Rightarrow> real \<Rightarrow> py_error + real" where
  "py_truediv a b = (if b = 0 then Inl ZeroDivisionError else Inr (a / b))"

text \<open>\<open>range(n)\<close>: the indices \<open>0, ..., n - 1\<close>; empty when \<open>n \<le> 0\<close>.\<close>

definition py_range :: "int \<Rightarrow> nat list" where
  "py_range n = [0..<nat n]"

section \<open>The work partition (main, lines 148-149 and 167-170)\<close>

text \<open>Line 170: \<open>calls_per_thread + (1 if i < remainder_calls else 0)\<close>.\<close>

definition num_calls_this_thread :: "int \<Rightarrow> int \<Rightarrow> nat \<Rightarrow> int" where
  "num_calls_this_thread calls_per_thread remainder_calls i =
     calls_per_thread + (if int i < remainder_calls then 1 else 0)"

text \<open>The quotas handed to the threads, in thread order: lines 148 and 149 compute
  \<open>calls_per_thread\<close> and \<open>remainder_calls\<close> (either raises when \<open>num_threads\<close> is 0),
  the loop of line 167 computes one quota for each \<open>i\<close> of \<open>range(num_threads)\<close>.\<close>

definition quotas :: "int \<Rightarrow> int \<Rightarrow> py_error + int list" where
  "quotas total_calls num_threads =
     (case py_floordiv total_calls num_threads of
        Inl e \<Rightarrow> Inl e
      | Inr calls_per_thread \<Rightarrow>
          (case py_mod total_calls num_threads of
             Inl e \<Rightarrow> Inl e
           | Inr remainder_calls \<Rightarrow>
               Inr (map (num_calls_this_thread calls_per_thread remainder_calls)
                        (py_range num_threads))))"

section \<open>The configuration and the environment of a run\<close>

text \<open>The local variables of \<open>main\<close> that the command line sets (lines 70-83 and
  102), as they stand at line 147. Times are in seconds.\<close>

record config =
  url :: string
  total_calls :: int
  num_threads :: int
  sleep_time :: real
  request_time_out :: real
  connect_time_out :: real
  reuse_connects :: bool
  keep_connects_open :: bool

type_synonym byte = "8 word"

text \<open>What one \<open>session.get\<close> does is given by the environment: it returns a response
  (status code and body bytes; with \<open>stream=False\<close> the body has been read when
  \<open>get\<close> returns) or raises a \<open>requests.exceptions.RequestException\<close> (connection
  refused, either timeout, DNS or TLS failure, ...) with its message.\<close>

datatype get_result = Response int "byte list" | RequestException string

text \<open>One call as the environment supplies it: the reading of \<open>time.time()\<close> at line
  37, the result of the GET, and the reading of \<open>time.time()\<close> at line 40 or 60.\<close>

record call_env =
  call_start_time :: real
  get_result :: get_result
  call_end_time :: real

text \<open>The arguments \<open>session.get\<close> receives. The library \<open>requests\<close> reads a
  \<open>timeout\<close> tuple as (connect timeout, read timeout): the first component bounds
  the establishment of the connection, the second the wait for the server's
  response.\<close>

record get_request =
  req_url :: string
  req_connection :: string
  req_connect_timeout :: real
  req_read_timeout :: real
  req_stream :: bool

definition session_get :: "string \<Rightarrow> string \<Rightarrow> real \<times> real \<Rightarrow> bool \<Rightarrow> get_request" where
  "session_get u connection timeout stream =
     \<lparr>req_url = u, req_connection = connection,
      req_connect_timeout = fst timeout, req_read_timeout = snd timeout,
      req_stream = stream\<rparr>"

section \<open>Draining the body (fetch_data, lines 43-48)\<close>

text \<open>\<open>response.content.decode("utf-8")\<close> raises \<open>UnicodeDecodeError\<close> unless the
  bytes are well-formed UTF-8 (the byte ranges of the Unicode standard: no overlong
  form, no surrogate, nothing above U+10FFFF).\<close>

definition continuation :: "byte \<Rightarrow> bool" where
  "continuation b = (0x80 \<le> b \<and> b \<le> 0xBF)"

fun utf8_valid :: "byte list \<Rightarrow> bool" where
  "utf8_valid [] = True"
| "utf8_valid [b] = (b < 0x80)"
| "utf8_valid [b, c1] =
     (if b < 0x80 then utf8_valid [c1]
      else 0xC2 \<le> b \<and> b \<le> 0xDF \<and> continuation c1)"
| "utf8_valid [b, c1, c2] =
     (if b < 0x80 then utf8_valid [c1, c2]
      else if 0xC2 \<le> b \<and> b \<le> 0xDF then continuation c1 \<and> utf8_valid [c2]
      else if b = 0xE0 then 0xA0 \<le> c1 \<and> c1 \<le> 0xBF \<and> continuation c2
      else if b = 0xED then 0x80 \<le> c1 \<and> c1 \<le> 0x9F \<and> continuation c2
      else 0xE1 \<le> b \<and> b \<le> 0xEF \<and> continuation c1 \<and> continuation c2)"
| "utf8_valid (b # c1 # c2 # c3 # bs) =
     (if b < 0x80 then utf8_valid (c1 # c2 # c3 # bs)
      else if 0xC2 \<le> b \<and> b \<le> 0xDF then continuation c1 \<and> utf8_valid (c2 # c3 # bs)
      else if b = 0xE0 then
        0xA0 \<le> c1 \<and> c1 \<le> 0xBF \<and> continuation c2 \<and> utf8_valid (c3 # bs)
      else if b = 0xED then
        0x80 \<le> c1 \<and> c1 \<le> 0x9F \<and> continuation c2 \<and> utf8_valid (c3 # bs)
      else if 0xE1 \<le> b \<and> b \<le> 0xEF then
        continuation c1 \<and> continuation c2 \<and> utf8_valid (c3 # bs)
      else if b = 0xF0 then
        0x90 \<le> c1 \<and> c1 \<le> 0xBF \<and> continuation c2 \<and> continuation c3 \<and> utf8_valid bs
      else if b = 0xF4 then
        0x80 \<le> c1 \<and> c1 \<le> 0x8F \<and> continuation c2 \<and> continuation c3 \<and> utf8_valid bs
      else 0xF1 \<le> b \<and> b \<le> 0xF3 \<and> continuation c1 \<and> continuation c2 \<and> continuation c3
             \<and> utf8_valid bs)"

text \<open>Lines 43-48: unless \<open>keep_connects_open\<close> is set, the body is decoded as UTF-8
  and the text written to \<open>os.devnull\<close>. The decoded text always encodes again, so
  the write succeeds once the decoding has (the null device is taken to open, and
  to be written in UTF-8).\<close>

definition drain_body :: "bool \<Rightarrow> byte list \<Rightarrow> py_error + unit" where
  "drain_body keep_open content =
     (if keep_open then Inr ()
      else if utf8_valid content then Inr () else Inl UnicodeDecodeError)"

text \<open>\<open>time.sleep(secs)\<close> raises \<open>ValueError\<close> on a negative length.\<close>

definition time_sleep :: "real \<Rightarrow> py_error + unit" where
  "time_sleep secs = (if secs < 0 then Inl ValueError else Inr ())"

section \<open>The worker (fetch_data, lines 32-66)\<close>

text \<open>The line a call prints under the lock (lines 52, 56 and 63): thread id, call
  number, then the status code or the exception's message, and the response time
  in milliseconds. The formatting of the numbers is left out.\<close>

datatype line =
    Success nat nat int real
  | FailedStatus nat nat int real
  | RequestFailed nat nat string real

text \<open>What the threads share: the list \<open>response_times\<close> and the console. Both are
  written only inside \<open>with print_lock\<close>, a line and its entry in one critical section.\<close>

record shared =
  response_times :: "real list"
  printed :: "line list"

text \<open>What belongs to one thread: its quota \<open>num_calls\<close>, the loop index \<open>call_num\<close>
  of the iteration it runs next, the requests it has issued, the sleeps it has
  performed, and the exception that ended it, if one did.\<close>

record thread =
  num_calls :: int
  call_num :: nat
  issued :: "get_request list"
  slept :: "real list"
  raised :: "py_error option"

definition new_thread :: "int \<Rightarrow> thread" where
  "new_thread n = \<lparr>num_calls = n, call_num = 0, issued = [], slept = [], raised = None\<rparr>"

text \<open>The loop of line 34 has another iteration to run.\<close>

definition runnable :: "thread \<Rightarrow> bool" where
  "runnable t = (raised t = None \<and> int (call_num t) < num_calls t)"

text \<open>Line 66, and the step of the loop to its next index.\<close>

definition sleep_and_next :: "config \<Rightarrow> shared \<times> thread \<Rightarrow> shared \<times> thread" where
  "sleep_and_next cfg st =
     (case st of (sh, t) \<Rightarrow>
        (case time_sleep (sleep_time cfg) of
           Inl e \<Rightarrow> (sh, t\<lparr>raised := Some e\<rparr>)
         | Inr _ \<Rightarrow> (sh, t\<lparr>slept := slept t @ [sleep_time cfg], call_num := Suc (call_num t)\<rparr>)))"

text \<open>Lines 50-58 and 62-65: the critical section.\<close>

definition record_call :: "line \<Rightarrow> real \<Rightarrow> shared \<Rightarrow> shared" where
  "record_call l response_time sh =
     sh\<lparr>printed := printed sh @ [l], response_times := response_times sh @ [response_time]\<rparr>"

text \<open>One iteration of the loop (lines 35-66) of thread \<open>thread_id\<close> at index
  \<open>call_num\<close>. An exception other than \<open>RequestException\<close> leaves the \<open>try\<close> and the
  function, and ends the thread.\<close>

definition fetch_call :: "config \<Rightarrow> nat \<Rightarrow> call_env \<Rightarrow> shared \<times> thread \<Rightarrow> shared \<times> thread" where
  "fetch_call cfg thread_id ce st =
     (case st of (sh, t) \<Rightarrow>
        let timeout_tuple = (request_time_out cfg, connect_time_out cfg);
            headers_struct = (if reuse_connects cfg then ''keep-alive'' else ''close'');
            t1 = t\<lparr>issued := issued t @ [session_get (url cfg) headers_struct timeout_tuple False]\<rparr>;
            response_time = (call_end_time ce - call_start_time ce) * 1000
        in (case get_result ce of
              Response status_code content \<Rightarrow>
                (case drain_body (keep_connects_open cfg) content of
                   Inl e \<Rightarrow> (sh, t1\<lparr>raised := Some e\<rparr>)
                 | Inr _ \<Rightarrow>
                     sleep_and_next cfg
                       (record_call
                          (if status_code = 200
                           then Success thread_id (call_num t) status_code response_time
                           else FailedStatus thread_id (call_num t) status_code response_time)
                          response_time sh, t1))
            | RequestException e \<Rightarrow>
                sleep_and_next cfg
                  (record_call (RequestFailed thread_id (call_num t) e response_time)
                     response_time sh, t1)))"

text \<open>The iterations a thread has still to run, as a measure.\<close>

definition remaining :: "thread \<Rightarrow> nat" where
  "remaining t = (if raised t = None then nat (num_calls t - int (call_num t)) else 0)"

lemma remaining_fetch_call:
  "runnable t \<Longrightarrow> remaining (snd (fetch_call cfg i ce (sh, t))) < remaining t"
  by (auto simp: fetch_call_def sleep_and_next_def runnable_def remaining_def Let_def
        split: get_result.splits sum.splits)

text \<open>The loop \<open>for call_num in range(num_calls)\<close>, from the thread's current index
  to its end (from a new thread: the whole of \<open>fetch_data\<close>). \<open>calls\<close> gives the
  environment of each of the thread's calls.\<close>

function fetch_data :: "config \<Rightarrow> (nat \<Rightarrow> call_env) \<Rightarrow> nat \<Rightarrow> shared \<times> thread \<Rightarrow> shared \<times> thread" where
  "fetch_data cfg calls thread_id st =
     (if runnable (snd st)
      then fetch_data cfg calls thread_id (fetch_call cfg thread_id (calls (call_num (snd st))) st)
      else st)"
  by pat_completeness auto
termination
proof (relation "measure (\<lambda>(cfg, calls, thread_id, st). remaining (snd st))")
  show "wf (measure (\<lambda>(cfg, calls, thread_id, st). remaining (snd st)))"
    by simp
next
  fix cfg :: config and calls :: "nat \<Rightarrow> call_env" and thread_id :: nat
    and st :: "shared \<times> thread"
  assume "runnable (snd st)"
  then have "remaining (snd (fetch_call cfg thread_id (calls (call_num (snd st))) (fst st, snd st)))
               < remaining (snd st)"
    by (rule remaining_fetch_call)
  then show "((cfg, calls, thread_id, fetch_call cfg thread_id (calls (call_num (snd st))) st),
              (cfg, calls, thread_id, st))
             \<in> measure (\<lambda>(cfg, calls, thread_id, st). remaining (snd st))"
    by simp
qed

section \<open>The threads of a run (main, lines 151-180)\<close>

text \<open>
  The threads run concurrently. A thread touches what is shared only inside the
  critical section of an iteration, once per iteration, so an execution is an
  interleaving of whole iterations: a schedule names, step by step, the thread
  that runs its next iteration. Naming a thread that has ended, or no thread,
  changes nothing.
\<close>

definition step_thread ::
  "config \<Rightarrow> (nat \<Rightarrow> nat \<Rightarrow> call_env) \<Rightarrow> nat \<Rightarrow> shared \<times> thread list \<Rightarrow> shared \<times> thread list" where
  "step_thread cfg calls i st =
     (case st of (sh, ts) \<Rightarrow>
        if i < length ts \<and> runnable (ts ! i)
        then (case fetch_call cfg i (calls i (call_num (ts ! i))) (sh, ts ! i) of
                (sh', t') \<Rightarrow> (sh', ts[i := t']))
        else (sh, ts))"

definition run_schedule ::
  "config \<Rightarrow> (nat \<Rightarrow> nat \<Rightarrow> call_env) \<Rightarrow> nat list \<Rightarrow> shared \<times> thread list \<Rightarrow> shared \<times> thread list" where
  "run_schedule cfg calls schedule st = fold (step_thread cfg calls) schedule st"

text \<open>Lines 179-180: \<open>thread.join()\<close> returns when the thread has ended, that is
  when it has run the rest of its loop. What a schedule has left undone is run here,
  thread by thread; a schedule that is long enough leaves nothing, so every
  interleaving of the iterations is the run of some schedule.\<close>

definition join_thread ::
  "config \<Rightarrow> (nat \<Rightarrow> nat \<Rightarrow> call_env) \<Rightarrow> nat \<Rightarrow> shared \<times> thread list \<Rightarrow> shared \<times> thread list" where
  "join_thread cfg calls i st =
     (case st of (sh, ts) \<Rightarrow>
        if i < length ts
        then (case fetch_data cfg (calls i) i (sh, ts ! i) of (sh', t') \<Rightarrow> (sh', ts[i := t']))
        else (sh, ts))"

definition join_all ::
  "config \<Rightarrow> (nat \<Rightarrow> nat \<Rightarrow> call_env) \<Rightarrow> shared \<times> thread list \<Rightarrow> shared \<times> thread list" where
  "join_all cfg calls st = fold (join_thread cfg calls) [0..<length (snd st)] st"

section \<open>The report and the run (main, lines 147-200)\<close>

record report =
  total_thread_count :: int
  total_time :: real
  average_response_time :: real
  requests_per_second :: real

text \<open>Lines 183-196.\<close>

definition make_report :: "config \<Rightarrow> real \<Rightarrow> real \<Rightarrow> real list \<Rightarrow> py_error + report" where
  "make_report cfg start_time end_time rts =
     (let total = end_time - start_time in
      case py_truediv (real_of_int (total_calls cfg)) total of
        Inl e \<Rightarrow> Inl e
      | Inr rps \<Rightarrow>
          Inr \<lparr>total_thread_count = num_threads cfg,
               total_time = total,
               average_response_time =
                 (if rts \<noteq> [] then sum_list rts / real (length rts) else 0),
               requests_per_second = rps\<rparr>)"

text \<open>What the environment gives a run: every call of every thread (by thread id
  and call number), the interleaving of the threads up to the moment the main thread
  waits for them, and the readings of \<open>time.time()\<close> at lines 164 and 183.\<close>

record run_env =
  calls :: "nat \<Rightarrow> nat \<Rightarrow> call_env"
  schedule :: "nat list"
  start_time :: real
  end_time :: real

definition no_calls :: shared where
  "no_calls = \<lparr>response_times = [], printed = []\<rparr>"

text \<open>\<open>main\<close> from line 147 on: the result (the report, or the exception that ends
  \<open>main\<close>), with the shared state and the threads as the run leaves them. The set-up
  of the session (lines 155-161) sends nothing and is left out.\<close>

definition main :: "config \<Rightarrow> run_env \<Rightarrow> (py_error + report) \<times> shared \<times> thread list" where
  "main cfg env =
     (case quotas (total_calls cfg) (num_threads cfg) of
        Inl e \<Rightarrow> (Inl e, no_calls, [])
      | Inr qs \<Rightarrow>
          (case join_all cfg (calls env)
                  (run_schedule cfg (calls env) (schedule env) (no_calls, map new_thread qs)) of
             (sh, ts) \<Rightarrow>
               (make_report cfg (start_time env) (end_time env) (response_times sh), sh, ts)))"

section \<open>Configurations and environments of particular runs\<close>

text \<open>The configuration \<open>main\<close> starts from (lines 70-83), for a given URL.\<close>

definition default_config :: "string \<Rightarrow> config" where
  "default_config u =
     \<lparr>url = u, total_calls = 10000, num_threads = 16, sleep_time = 0,
      request_time_out = 10, connect_time_out = 10 * 3,
      reuse_connects = False, keep_connects_open = False\<rparr>"

text \<open>The configuration after \<open>-totalCalls t -numThreads n\<close> on a local URL.\<close>

definition command_line :: "int \<Rightarrow> int \<Rightarrow> config" where
  "command_line t n = (default_config ''http://localhost/'')\<lparr>total_calls := t, num_threads := n\<rparr>"

text \<open>A call answered with status 200 and the body \<open>ok\<close> after a quarter of a second,
  and one answered with status 200 and the single byte \<open>0xFF\<close>, which is not UTF-8.\<close>

definition ok_call :: call_env where
  "ok_call = \<lparr>call_start_time = 0, get_result = Response 200 [0x6F, 0x6B], call_end_time = 1 / 4\<rparr>"

definition undecodable_call :: call_env where
  "undecodable_call = \<lparr>call_start_time = 0, get_result = Response 200 [0xFF], call_end_time = 1 / 4\<rparr>"

text \<open>A run in which thread 0 gets a 200 and then a timeout, and every call of
  thread 1 gets a 500; thread 1 runs one iteration first, then thread 0 one.\<close>

definition mixed_env :: run_env where
  "mixed_env =
     \<lparr>calls = (\<lambda>i k. if i = 0 \<and> k = 1
                      then \<lparr>call_start_time = 0, get_result = RequestException ''timed out'',
                            call_end_time = 10\<rparr>
                      else if i = 1
                      then \<lparr>call_start_time = 0, get_result = Response 500 [0x6E, 0x6F],
                            call_end_time = 1 / 2\<rparr>
                      else ok_call),
      schedule = [1, 0], start_time = 0, end_time = 11\<rparr>"

text \<open>A run in which every call goes the same way, no thread gets to run before the
  main thread joins it, and the clock reads \<open>s\<close> at line 164 and \<open>e\<close> at line 183.\<close>

definition env_of :: "call_env \<Rightarrow> real \<Rightarrow> real \<Rightarrow> run_env" where
  "env_of ce s e = \<lparr>calls = (\<lambda>i k. ce), schedule = [], start_time = s, end_time = e\<rparr>"

section \<open>Invariants of a run\<close>

text \<open>The entries a thread has appended to \<open>response_times\<close>: one for each completed
  iteration, and one more when the thread ended in \<open>time.sleep\<close>, after the
  critical section of its last iteration.\<close>

definition entries_of :: "thread \<Rightarrow> nat" where
  "entries_of t = call_num t + (if raised t = Some ValueError then 1 else 0)"

text \<open>The thread's own counters agree with its loop index, and the index stays
  within \<open>range(num_calls)\<close>.\<close>

definition thread_ok :: "thread \<Rightarrow> bool" where
  "thread_ok t = (length (slept t) = call_num t \<and> length (issued t) = entries_of t + (if raised t = Some UnicodeDecodeError then 1 else 0) \<and> int (call_num t) \<le> max 0 (num_calls t))"

text \<open>The thread after line 39 has issued its request.\<close>

definition issue_get :: "config \<Rightarrow> thread \<Rightarrow> thread" where
  "issue_get cfg t =
     t\<lparr>issued := issued t @ [session_get (url cfg)
            (if reuse_connects cfg then ''keep-alive'' else ''close'')
            (request_time_out cfg, connect_time_out cfg) False]\<rparr>"

text \<open>How a step of one thread changes that thread and the shared state.\<close>

definition advances :: "shared \<times> thread \<Rightarrow> shared \<times> thread \<Rightarrow> bool" where
  "advances a b =
     (num_calls (snd b) = num_calls (snd a)
      \<and> length (response_times (fst b)) + entries_of (snd a)
            = length (response_times (fst a)) + entries_of (snd b)
      \<and> length (printed (fst b)) + entries_of (snd a)
            = length (printed (fst a)) + entries_of (snd b)
      \<and> (\<not> thread_ok (snd a) \<or> thread_ok (snd b)))"

text \<open>The shared list and the console hold exactly what the threads have recorded.\<close>

definition run_ok :: "shared \<times> thread list \<Rightarrow> bool" where
  "run_ok st =
     (length (response_times (fst st)) = sum_list (map entries_of (snd st))
      \<and> length (printed (fst st)) = sum_list (map entries_of (snd st))
      \<and> list_all thread_ok (snd st))"

text \<open>The body of the call drains: lines 43-48 raise nothing.\<close>

definition drains :: "config \<Rightarrow> call_env \<Rightarrow> bool" where
  "drains cfg ce =
     (case get_result ce of
        Response status_code content \<Rightarrow> drain_body (keep_connects_open cfg) content = Inr ()
      | RequestException e \<Rightarrow> True)"

section \<open>Properties of the partition\<close>

lemma quotas_Inr:
  "n \<noteq> 0 \<Longrightarrow>
     quotas t n = Inr (map (num_calls_this_thread (t div n) (t mod n)) [0..<nat n])"
  by (simp add: quotas_def py_floordiv_def py_mod_def py_range_def)

lemma sum_list_extra:
  "0 \<le> r \<Longrightarrow> (\<Sum>i\<leftarrow>[0..<k]. (if int i < r then 1 else 0 :: int)) = min (int k) r"
  by (induction k) auto

lemma sum_list_num_calls:
  assumes "0 \<le> r"
  shows "sum_list (map (num_calls_this_thread c r) [0..<k]) = int k * c + min (int k) r"
proof -
  have "sum_list (map (num_calls_this_thread c r) [0..<k])
          = (\<Sum>i\<leftarrow>[0..<k]. c) + (\<Sum>i\<leftarrow>[0..<k]. (if int i < r then 1 else 0 :: int))"
    unfolding num_calls_this_thread_def by (simp add: sum_list_addf)
  also have "(\<Sum>i\<leftarrow>[0..<k]. c) = int k * c"
    by (simp add: sum_list_triv)
  finally show ?thesis
    using assms by (simp add: sum_list_extra)
qed

lemma sum_list_quotas:
  assumes "1 \<le> n"
  shows "sum_list (map (num_calls_this_thread (t div n) (t mod n)) [0..<nat n]) = t"
proof -
  have r: "0 \<le> t mod n" "t mod n < n"
    using assms by simp_all
  have "sum_list (map (num_calls_this_thread (t div n) (t mod n)) [0..<nat n])
          = int (nat n) * (t div n) + min (int (nat n)) (t mod n)"
    using r(1) by (rule sum_list_num_calls)
  also have "\<dots> = n * (t div n) + t mod n"
    using assms r by simp
  finally show ?thesis
    by simp
qed

lemma sum_quotas_exact:
  "1 \<le> n \<Longrightarrow> \<exists>qs. quotas t n = Inr qs \<and> sum_list qs = t"
  by (simp add: quotas_Inr sum_list_quotas)

lemma quotas_nonneg:
  assumes "0 \<le> t" and "1 \<le> n" and "quotas t n = Inr qs"
  shows "\<forall>q \<in> set qs. 0 \<le> q"
proof -
  have "0 \<le> t div n" "0 \<le> t mod n"
    using assms(1,2) by (simp_all add: pos_imp_zdiv_nonneg_iff)
  then have "0 \<le> num_calls_this_thread (t div n) (t mod n) i" for i
    by (simp add: num_calls_this_thread_def)
  then show ?thesis
    using assms(2,3) by (auto simp: quotas_Inr)
qed

lemma quotas_negative_total:
  assumes "t < 0" and "1 \<le> n"
  shows "\<exists>qs. quotas t n = Inr qs \<and> length qs = nat n \<and> (\<forall>q \<in> set qs. q \<le> 0)"
proof -
  have "0 < n"
    using assms(2) by simp
  with assms(1) have "t div n < 0"
    by (rule div_neg_pos_less0)
  then have "num_calls_this_thread (t div n) (t mod n) i \<le> 0" for i
    by (simp add: num_calls_this_thread_def)
  then show ?thesis
    using assms(2) by (auto simp: quotas_Inr)
qed

text \<open>
  Claim C1. For every total call count \<open>t \<ge> 0\<close> and every worker count \<open>n \<ge> 1\<close> the
  partition succeeds, yields one quota for each of the \<open>n\<close> workers, and the quotas
  add up to \<open>t\<close> exactly.
\<close>

theorem quotas_sum_total:
  assumes "0 \<le> t" and "1 \<le> n"
  shows "\<exists>qs. quotas t n = Inr qs \<and> length qs = nat n \<and> sum_list qs = t"
  using assms by (simp add: quotas_Inr sum_list_quotas)

theorem quotas_sum_total_witness:
  "(0::int) \<le> 10 \<and> (1::int) \<le> 3
     \<and> (\<exists>qs. quotas 10 3 = Inr qs \<and> length qs = nat 3 \<and> sum_list qs = 10)"
  using quotas_sum_total [of 10 3] by simp

text \<open>
  Claim C7. For every total call count \<open>t \<ge> 0\<close> and every worker count \<open>n \<ge> 1\<close>, worker
  \<open>i\<close> (counted from 0) receives \<open>t div n + 1\<close> calls when \<open>i < t mod n\<close> and \<open>t div n\<close>
  calls otherwise; hence two quotas never differ by more than 1.
\<close>

theorem quotas_balanced:
  assumes "0 \<le> t" and "1 \<le> n"
  shows "\<exists>qs. quotas t n = Inr qs \<and> length qs = nat n
           \<and> (\<forall>i < nat n. qs ! i = (if int i < t mod n then t div n + 1 else t div n))
           \<and> (\<forall>i < nat n. \<forall>j < nat n. \<bar>qs ! i - qs ! j\<bar> \<le> 1)"
  using assms by (simp add: quotas_Inr num_calls_this_thread_def)

theorem quotas_balanced_witness:
  "(0::int) \<le> 10 \<and> (1::int) \<le> 3
     \<and> (\<exists>qs. quotas 10 3 = Inr qs \<and> length qs = nat 3
           \<and> (\<forall>i < nat 3. qs ! i = (if int i < 10 mod 3 then 10 div 3 + 1 else 10 div 3))
           \<and> (\<forall>i < nat 3. \<forall>j < nat 3. \<bar>qs ! i - qs ! j\<bar> \<le> 1))"
  using quotas_balanced [of 10 3] by simp

section \<open>One iteration, and the loop of one thread\<close>

lemma thread_ok_new: "thread_ok (new_thread q)"
  by (simp add: thread_ok_def new_thread_def entries_of_def)

lemma entries_of_new: "entries_of (new_thread q) = 0"
  by (simp add: entries_of_def new_thread_def)

lemma sleep_and_next_result:
  "sleep_and_next cfg (sh, t) =
     (if sleep_time cfg < 0 then (sh, t\<lparr>raised := Some ValueError\<rparr>)
      else (sh, t\<lparr>slept := slept t @ [sleep_time cfg], call_num := Suc (call_num t)\<rparr>))"
  by (simp add: sleep_and_next_def time_sleep_def)

lemma fetch_call_result:
  "fetch_call cfg i ce (sh, t) = (sh, (issue_get cfg t)\<lparr>raised := Some UnicodeDecodeError\<rparr>)
   \<or> (\<exists>l rt. fetch_call cfg i ce (sh, t)
               = (record_call l rt sh, (issue_get cfg t)\<lparr>raised := Some ValueError\<rparr>))
   \<or> (\<exists>l rt. fetch_call cfg i ce (sh, t)
               = (record_call l rt sh,
                  (issue_get cfg t)\<lparr>slept := slept t @ [sleep_time cfg],
                                     call_num := Suc (call_num t)\<rparr>))"
proof (cases "get_result ce")
  case (Response status_code content)
  show ?thesis
  proof (cases "drain_body (keep_connects_open cfg) content")
    case (Inl e)
    then have "e = UnicodeDecodeError"
      by (simp add: drain_body_def split: if_splits)
    with Inl Response show ?thesis
      by (simp add: fetch_call_def issue_get_def Let_def)
  next
    case (Inr u)
    with Response show ?thesis
      by (cases "sleep_time cfg < 0")
         (auto simp add: fetch_call_def issue_get_def Let_def sleep_and_next_result)
  qed
next
  case (RequestException e)
  then show ?thesis
    by (cases "sleep_time cfg < 0")
       (auto simp add: fetch_call_def issue_get_def Let_def sleep_and_next_result)
qed

lemma fetch_call_step:
  assumes "runnable t" and "fetch_call cfg i ce (sh, t) = (sh', t')"
  shows "num_calls t' = num_calls t"
    and "length (response_times sh') + entries_of t = length (response_times sh) + entries_of t'"
    and "length (printed sh') + entries_of t = length (printed sh) + entries_of t'"
    and "thread_ok t \<Longrightarrow> thread_ok t'"
  using assms fetch_call_result [of cfg i ce sh t]
  by (auto simp: record_call_def runnable_def entries_of_def thread_ok_def issue_get_def)

lemma fetch_data_run:
  assumes "fetch_data cfg cs i (sh, t) = (sh', t')"
  shows "num_calls t' = num_calls t \<and> \<not> runnable t'
    \<and> length (response_times sh') + entries_of t = length (response_times sh) + entries_of t'
    \<and> length (printed sh') + entries_of t = length (printed sh) + entries_of t'
    \<and> (thread_ok t \<longrightarrow> thread_ok t')"
  using assms
proof (induction cfg cs i "(sh, t)" arbitrary: sh t rule: fetch_data.induct)
  case (1 cfg cs thread_id)
  show ?case
  proof (cases "runnable t")
    case False
    with "1.prems" show ?thesis by simp
  next
    case True
    obtain sh1 t1 where s: "fetch_call cfg thread_id (cs (call_num t)) (sh, t) = (sh1, t1)"
      by (cases "fetch_call cfg thread_id (cs (call_num t)) (sh, t)")
    from True s "1.prems" have r: "fetch_data cfg cs thread_id (sh1, t1) = (sh', t')"
      by simp
    have ih: "num_calls t' = num_calls t1 \<and> \<not> runnable t'
      \<and> length (response_times sh') + entries_of t1 = length (response_times sh1) + entries_of t'
      \<and> length (printed sh') + entries_of t1 = length (printed sh1) + entries_of t'
      \<and> (thread_ok t1 \<longrightarrow> thread_ok t')"
      using "1.hyps" [of sh1 t1] True s r by simp
    from fetch_call_step [OF True s] ih show ?thesis
      by auto
  qed
qed

lemma advances_fetch_call:
  "runnable t \<Longrightarrow> advances (sh, t) (fetch_call cfg i ce (sh, t))"
  using fetch_call_step [of t cfg i ce sh "fst (fetch_call cfg i ce (sh, t))"
                            "snd (fetch_call cfg i ce (sh, t))"]
  by (auto simp: advances_def)

lemma advances_fetch_data:
  "advances (sh, t) (fetch_data cfg cs i (sh, t))"
  using fetch_data_run [of cfg cs i sh t "fst (fetch_data cfg cs i (sh, t))"
                           "snd (fetch_data cfg cs i (sh, t))"]
  by (auto simp: advances_def)

lemma fetch_data_ended: "\<not> runnable (snd (fetch_data cfg cs i (sh, t)))"
  using fetch_data_run [of cfg cs i sh t "fst (fetch_data cfg cs i (sh, t))"
                           "snd (fetch_data cfg cs i (sh, t))"]
  by simp

lemma fetch_call_response:
  assumes "get_result ce = Response status_code content"
    and "drain_body (keep_connects_open cfg) content = Inr ()"
    and "0 \<le> sleep_time cfg"
  shows "fetch_call cfg i ce (sh, t) =
           (record_call
              (if status_code = 200
               then Success i (call_num t) status_code
                      ((call_end_time ce - call_start_time ce) * 1000)
               else FailedStatus i (call_num t) status_code
                      ((call_end_time ce - call_start_time ce) * 1000))
              ((call_end_time ce - call_start_time ce) * 1000) sh,
            (issue_get cfg t)\<lparr>slept := slept t @ [sleep_time cfg],
                               call_num := Suc (call_num t)\<rparr>)"
  using assms by (simp add: fetch_call_def issue_get_def Let_def sleep_and_next_result)

lemma fetch_call_request_exception:
  assumes "get_result ce = RequestException e" and "0 \<le> sleep_time cfg"
  shows "fetch_call cfg i ce (sh, t) =
           (record_call
              (RequestFailed i (call_num t) e ((call_end_time ce - call_start_time ce) * 1000))
              ((call_end_time ce - call_start_time ce) * 1000) sh,
            (issue_get cfg t)\<lparr>slept := slept t @ [sleep_time cfg],
                               call_num := Suc (call_num t)\<rparr>)"
  using assms by (simp add: fetch_call_def issue_get_def Let_def sleep_and_next_result)

lemma fetch_call_timeouts:
  "issued (snd (fetch_call cfg i ce (sh, t))) = issued (issue_get cfg t)"
  using fetch_call_result [of cfg i ce sh t] by (auto simp: issue_get_def)

text \<open>Every iteration issues one request, whose connect timeout is the configured
  request timeout and whose read timeout is the configured connect timeout.\<close>

lemma fetch_call_issues:
  "\<exists>r. issued (snd (fetch_call cfg i ce (sh, t))) = issued t @ [r]
        \<and> req_connect_timeout r = request_time_out cfg
        \<and> req_read_timeout r = connect_time_out cfg"
  by (simp add: fetch_call_timeouts issue_get_def session_get_def)

section \<open>All threads: the schedule and the join\<close>

lemma sum_list_map_update:
  fixes f :: "'a \<Rightarrow> nat"
  shows "i < length ts \<Longrightarrow>
           sum_list (map f (ts[i := t'])) + f (ts ! i) = sum_list (map f ts) + f t'"
proof (induction ts arbitrary: i)
  case Nil
  then show ?case by simp
next
  case (Cons a ts)
  then show ?case by (cases i) auto
qed

lemma list_all_update:
  "list_all P ts \<Longrightarrow> P t' \<Longrightarrow> list_all P (ts[i := t'])"
  by (induction ts arbitrary: i) (auto split: nat.splits)

lemma run_ok_update:
  assumes ok: "run_ok (sh, ts)" and i: "i < length ts"
    and adv: "advances (sh, ts ! i) (sh', t')"
  shows "run_ok (sh', ts[i := t'])"
    and "map num_calls (ts[i := t']) = map num_calls ts"
proof -
  have oki: "thread_ok (ts ! i)"
    using ok i by (simp add: run_ok_def list_all_length)
  with adv have ok': "thread_ok t'"
    by (simp add: advances_def)
  have s: "sum_list (map entries_of (ts[i := t'])) + entries_of (ts ! i)
             = sum_list (map entries_of ts) + entries_of t'"
    using i by (rule sum_list_map_update)
  have r: "length (response_times sh') + entries_of (ts ! i)
             = length (response_times sh) + entries_of t'"
    and p: "length (printed sh') + entries_of (ts ! i)
             = length (printed sh) + entries_of t'"
    using adv by (simp_all add: advances_def)
  have "length (response_times sh') = sum_list (map entries_of (ts[i := t']))"
    using s r ok by (simp add: run_ok_def)
  moreover have "length (printed sh') = sum_list (map entries_of (ts[i := t']))"
    using s p ok by (simp add: run_ok_def)
  moreover have "list_all thread_ok (ts[i := t'])"
    using ok ok' by (simp add: run_ok_def list_all_update)
  ultimately show "run_ok (sh', ts[i := t'])"
    by (simp add: run_ok_def)
  have "num_calls t' = num_calls (ts ! i)"
    using adv by (simp add: advances_def)
  then show "map num_calls (ts[i := t']) = map num_calls ts"
    using i by (simp add: map_update list_update_same_conv)
qed

lemma step_thread_ok:
  assumes "run_ok st"
  shows "run_ok (step_thread cfg cs i st)
         \<and> map num_calls (snd (step_thread cfg cs i st)) = map num_calls (snd st)"
proof (cases st)
  case (Pair sh ts)
  show ?thesis
  proof (cases "i < length ts \<and> runnable (ts ! i)")
    case False
    with Pair assms show ?thesis
      by (auto simp: step_thread_def)
  next
    case True
    obtain sh' t' where f: "fetch_call cfg i (cs i (call_num (ts ! i))) (sh, ts ! i) = (sh', t')"
      by (cases "fetch_call cfg i (cs i (call_num (ts ! i))) (sh, ts ! i)")
    have adv: "advances (sh, ts ! i) (sh', t')"
      using advances_fetch_call [of "ts ! i" sh cfg i "cs i (call_num (ts ! i))"] True f
      by simp
    have st': "step_thread cfg cs i st = (sh', ts[i := t'])"
      using Pair True f by (simp add: step_thread_def)
    from run_ok_update [OF _ _ adv] assms Pair True st' show ?thesis
      by simp
  qed
qed

lemma run_schedule_ok:
  "run_ok st \<Longrightarrow>
     run_ok (run_schedule cfg cs sched st)
     \<and> map num_calls (snd (run_schedule cfg cs sched st)) = map num_calls (snd st)"
proof (induction sched arbitrary: st)
  case Nil
  then show ?case by (simp add: run_schedule_def)
next
  case (Cons i sched)
  from step_thread_ok [OF Cons.prems, of cfg cs i]
  have a: "run_ok (step_thread cfg cs i st)"
    and b: "map num_calls (snd (step_thread cfg cs i st)) = map num_calls (snd st)"
    by simp_all
  from Cons.IH [OF a] b show ?case
    by (simp add: run_schedule_def)
qed

lemma join_thread_ok:
  assumes "run_ok st"
  shows "run_ok (join_thread cfg cs i st)"
    and "map num_calls (snd (join_thread cfg cs i st)) = map num_calls (snd st)"
    and "i < length (snd st) \<Longrightarrow> \<not> runnable (snd (join_thread cfg cs i st) ! i)"
    and "j \<noteq> i \<Longrightarrow> snd (join_thread cfg cs i st) ! j = snd st ! j"
proof -
  obtain sh ts where st: "st = (sh, ts)"
    by (cases st)
  obtain sh' t' where f: "fetch_data cfg (cs i) i (sh, ts ! i) = (sh', t')"
    by (cases "fetch_data cfg (cs i) i (sh, ts ! i)")
  have adv: "advances (sh, ts ! i) (sh', t')"
    using advances_fetch_data [of sh "ts ! i" cfg "cs i" i] f by simp
  have ended: "\<not> runnable t'"
    using fetch_data_ended [of cfg "cs i" i sh "ts ! i"] f by simp
  have j: "join_thread cfg cs i st = (if i < length ts then (sh', ts[i := t']) else (sh, ts))"
    using st f by (simp add: join_thread_def)
  show "run_ok (join_thread cfg cs i st)"
    using j assms st run_ok_update(1) [OF _ _ adv] by auto
  show "map num_calls (snd (join_thread cfg cs i st)) = map num_calls (snd st)"
    using j assms st run_ok_update(2) [OF _ _ adv] by auto
  show "i < length (snd st) \<Longrightarrow> \<not> runnable (snd (join_thread cfg cs i st) ! i)"
    using j st ended by simp
  show "j \<noteq> i \<Longrightarrow> snd (join_thread cfg cs i st) ! j = snd st ! j"
    using j st by simp
qed

lemma join_prefix_ok:
  assumes "run_ok st" and "k \<le> length (snd st)"
  shows "run_ok (fold (join_thread cfg cs) [0..<k] st)
         \<and> map num_calls (snd (fold (join_thread cfg cs) [0..<k] st)) = map num_calls (snd st)
         \<and> (\<forall>j<k. \<not> runnable (snd (fold (join_thread cfg cs) [0..<k] st) ! j))"
  using assms(2)
proof (induction k)
  case 0
  with assms(1) show ?case by simp
next
  case (Suc k)
  define st1 where "st1 = fold (join_thread cfg cs) [0..<k] st"
  have ih: "run_ok st1" "map num_calls (snd st1) = map num_calls (snd st)"
    "\<forall>j<k. \<not> runnable (snd st1 ! j)"
    using Suc by (simp_all add: st1_def)
  have len: "length (snd st1) = length (snd st)"
    using ih(2) by (metis length_map)
  have step: "fold (join_thread cfg cs) [0..<Suc k] st = join_thread cfg cs k st1"
    by (simp add: st1_def)
  have k: "k < length (snd st1)"
    using Suc.prems len by simp
  have "\<not> runnable (snd (join_thread cfg cs k st1) ! j)" if "j < Suc k" for j
  proof (cases "j = k")
    case True
    with join_thread_ok(3) [OF ih(1) k] show ?thesis by simp
  next
    case False
    with that have "j < k" by simp
    with ih(3) join_thread_ok(4) [OF ih(1) False] show ?thesis by simp
  qed
  with join_thread_ok(1,2) [OF ih(1), of cfg cs k] ih(2) step show ?case
    by simp
qed

lemma join_all_ok:
  assumes "run_ok st"
  shows "run_ok (join_all cfg cs st)"
    and "map num_calls (snd (join_all cfg cs st)) = map num_calls (snd st)"
    and "list_all (\<lambda>t. \<not> runnable t) (snd (join_all cfg cs st))"
proof -
  from join_prefix_ok [OF assms order_refl, of cfg cs]
  have a: "run_ok (join_all cfg cs st)"
    and b: "map num_calls (snd (join_all cfg cs st)) = map num_calls (snd st)"
    and c: "\<forall>j<length (snd st). \<not> runnable (snd (join_all cfg cs st) ! j)"
    by (simp_all add: join_all_def)
  show "run_ok (join_all cfg cs st)" by (rule a)
  show "map num_calls (snd (join_all cfg cs st)) = map num_calls (snd st)" by (rule b)
  have "length (snd (join_all cfg cs st)) = length (snd st)"
    using b by (metis length_map)
  with c show "list_all (\<lambda>t. \<not> runnable t) (snd (join_all cfg cs st))"
    by (simp add: list_all_length)
qed

lemma run_ok_start: "run_ok (no_calls, map new_thread qs)"
  by (induction qs) (simp_all add: run_ok_def no_calls_def thread_ok_new entries_of_new)

lemma main_run:
  assumes q: "quotas (total_calls cfg) (num_threads cfg) = Inr qs"
    and m: "main cfg env = (res, sh, ts)"
  shows "res = make_report cfg (start_time env) (end_time env) (response_times sh)"
    and "run_ok (sh, ts)"
    and "map num_calls ts = qs"
    and "list_all (\<lambda>t. \<not> runnable t) ts"
proof -
  define st0 where "st0 = run_schedule cfg (calls env) (schedule env) (no_calls, map new_thread qs)"
  have r0: "run_ok st0" and n0: "map num_calls (snd st0) = qs"
    using run_schedule_ok [OF run_ok_start, of cfg "calls env" "schedule env" qs]
    by (simp_all add: st0_def new_thread_def comp_def)
  have j: "join_all cfg (calls env) st0 = (sh, ts)"
    and r: "res = make_report cfg (start_time env) (end_time env) (response_times sh)"
    using q m by (auto simp: main_def st0_def split: prod.splits)
  show "res = make_report cfg (start_time env) (end_time env) (response_times sh)"
    by (rule r)
  from join_all_ok [OF r0, of cfg "calls env"] j n0
  show "run_ok (sh, ts)" and "map num_calls ts = qs" and "list_all (\<lambda>t. \<not> runnable t) ts"
    by simp_all
qed

lemma sum_list_nat:
  "\<forall>q \<in> set qs. 0 \<le> q \<Longrightarrow> int (sum_list (map nat qs)) = sum_list qs"
  by (induction qs) simp_all

lemma completed_thread:
  assumes "thread_ok t" and "\<not> runnable t" and "raised t = None"
  shows "call_num t = nat (num_calls t)" and "entries_of t = nat (num_calls t)"
    and "length (slept t) = nat (num_calls t)"
  using assms by (auto simp: thread_ok_def runnable_def entries_of_def)

lemma fold_idle: "(\<And>x. x \<in> set xs \<Longrightarrow> f x st = st) \<Longrightarrow> fold f xs st = st"
  by (induction xs) simp_all

lemma step_thread_idle:
  assumes "list_all (\<lambda>t. \<not> runnable t) ts"
  shows "step_thread cfg cs i (sh, ts) = (sh, ts)"
proof (cases "i < length ts")
  case True
  then have "\<not> runnable (ts ! i)"
    using assms by (simp add: list_all_length)
  with True show ?thesis
    by (simp add: step_thread_def)
next
  case False
  then show ?thesis
    by (simp add: step_thread_def)
qed

lemma join_thread_idle:
  assumes "list_all (\<lambda>t. \<not> runnable t) ts"
  shows "join_thread cfg cs i (sh, ts) = (sh, ts)"
proof (cases "i < length ts")
  case True
  then have "\<not> runnable (ts ! i)"
    using assms by (simp add: list_all_length)
  then have "fetch_data cfg (cs i) i (sh, ts ! i) = (sh, ts ! i)"
    by simp
  with True show ?thesis
    by (simp add: join_thread_def)
next
  case False
  then show ?thesis
    by (simp add: join_thread_def)
qed

lemma idle_run:
  assumes "list_all (\<lambda>t. \<not> runnable t) ts"
  shows "join_all cfg cs (run_schedule cfg cs sched (sh, ts)) = (sh, ts)"
proof -
  have "run_schedule cfg cs sched (sh, ts) = (sh, ts)"
    unfolding run_schedule_def using assms by (intro fold_idle step_thread_idle)
  moreover have "join_all cfg cs (sh, ts) = (sh, ts)"
    unfolding join_all_def using assms by (intro fold_idle join_thread_idle)
  ultimately show ?thesis
    by simp
qed

lemma negative_total_run:
  assumes "total_calls cfg < 0" and "1 \<le> num_threads cfg"
  shows "\<exists>qs. quotas (total_calls cfg) (num_threads cfg) = Inr qs
           \<and> length qs = nat (num_threads cfg) \<and> (\<forall>q \<in> set qs. q \<le> 0)
           \<and> main cfg env = (make_report cfg (start_time env) (end_time env) [],
                              no_calls, map new_thread qs)"
proof -
  obtain qs where q: "quotas (total_calls cfg) (num_threads cfg) = Inr qs"
    and l: "length qs = nat (num_threads cfg)" and n: "\<forall>q \<in> set qs. q \<le> 0"
    using quotas_negative_total [OF assms] by blast
  have "\<not> runnable (new_thread q)" if "q \<in> set qs" for q
    using n that by (auto simp: runnable_def new_thread_def)
  then have "list_all (\<lambda>t. \<not> runnable t) (map new_thread qs)"
    by (simp add: list_all_iff)
  then have "join_all cfg (calls env)
               (run_schedule cfg (calls env) (schedule env) (no_calls, map new_thread qs))
             = (no_calls, map new_thread qs)"
    by (rule idle_run)
  then have "main cfg env = (make_report cfg (start_time env) (end_time env) [],
                             no_calls, map new_thread qs)"
    using q by (simp add: main_def no_calls_def)
  with q l n show ?thesis
    by blast
qed

lemma make_report_result:
  "make_report cfg s e rts =
     (if e = s then Inl ZeroDivisionError
      else Inr \<lparr>total_thread_count = num_threads cfg, total_time = e - s,
                average_response_time =
                  (if rts \<noteq> [] then sum_list rts / real (length rts) else 0),
                requests_per_second = real_of_int (total_calls cfg) / (e - s)\<rparr>)"
  by (simp add: make_report_def py_truediv_def Let_def)

section \<open>Runs that no exception ends\<close>

text \<open>A property of threads that every iteration keeps holds of every thread when
  \<open>main\<close> has joined them; in particular, when no body fails to drain and the sleep
  time is not negative, no thread is ended by an exception: transport failures and
  statuses other than 200 are recorded and the loop goes on.\<close>

lemma fetch_call_no_exception:
  assumes "0 \<le> sleep_time cfg" and "drains cfg ce" and "raised t = None"
  shows "raised (snd (fetch_call cfg i ce (sh, t))) = None"
proof (cases "get_result ce")
  case (Response status_code content)
  with assms(2) have "drain_body (keep_connects_open cfg) content = Inr ()"
    by (simp add: drains_def)
  from fetch_call_response [OF Response this assms(1)] assms(3) show ?thesis
    by (simp add: issue_get_def)
next
  case (RequestException e)
  from fetch_call_request_exception [OF this assms(1)] assms(3) show ?thesis
    by (simp add: issue_get_def)
qed

lemma fetch_data_keeps:
  assumes "\<And>k sh t. runnable t \<Longrightarrow> P t \<Longrightarrow> P (snd (fetch_call cfg i (cs k) (sh, t)))"
    and "P (snd st)"
  shows "P (snd (fetch_data cfg cs i st))"
  using assms
proof (induction cfg cs i st rule: fetch_data.induct)
  case (1 cfg cs thread_id st)
  show ?case
  proof (cases "runnable (snd st)")
    case False
    with "1.prems"(2) show ?thesis by simp
  next
    case True
    have "P (snd (fetch_call cfg thread_id (cs (call_num (snd st))) (fst st, snd st)))"
      using "1.prems"(1) [OF True "1.prems"(2)] .
    then have "P (snd (fetch_data cfg cs thread_id
                        (fetch_call cfg thread_id (cs (call_num (snd st))) st)))"
      using "1.IH" [OF True "1.prems"(1)] by simp
    with True show ?thesis
      by simp
  qed
qed

lemma fold_keeps:
  "(\<And>x st. Q st \<Longrightarrow> Q (f x st)) \<Longrightarrow> Q st \<Longrightarrow> Q (fold f xs st)"
  by (induction xs arbitrary: st) simp_all

lemma step_thread_keeps:
  assumes step: "\<And>i k sh t. runnable t \<Longrightarrow> P t
                   \<Longrightarrow> P (snd (fetch_call cfg i (cs i k) (sh, t)))"
    and ok: "list_all P (snd st)"
  shows "list_all P (snd (step_thread cfg cs i st))"
proof -
  obtain sh ts where st: "st = (sh, ts)"
    by (cases st)
  show ?thesis
  proof (cases "i < length ts \<and> runnable (ts ! i)")
    case True
    obtain sh' t' where f: "fetch_call cfg i (cs i (call_num (ts ! i))) (sh, ts ! i) = (sh', t')"
      by (cases "fetch_call cfg i (cs i (call_num (ts ! i))) (sh, ts ! i)")
    have "P (ts ! i)"
      using ok st True by (simp add: list_all_length)
    with True have "P (snd (fetch_call cfg i (cs i (call_num (ts ! i))) (sh, ts ! i)))"
      by (simp add: step)
    then have "P t'"
      using f by simp
    moreover have "step_thread cfg cs i st = (sh', ts[i := t'])"
      using st True f by (simp add: step_thread_def)
    ultimately show ?thesis
      using ok st by (simp add: list_all_update)
  next
    case False
    then have "step_thread cfg cs i st = st"
      using st by (auto simp: step_thread_def)
    with ok show ?thesis
      by simp
  qed
qed

lemma join_thread_keeps:
  assumes step: "\<And>i k sh t. runnable t \<Longrightarrow> P t
                   \<Longrightarrow> P (snd (fetch_call cfg i (cs i k) (sh, t)))"
    and ok: "list_all P (snd st)"
  shows "list_all P (snd (join_thread cfg cs i st))"
proof -
  obtain sh ts where st: "st = (sh, ts)"
    by (cases st)
  show ?thesis
  proof (cases "i < length ts")
    case True
    obtain sh' t' where f: "fetch_data cfg (cs i) i (sh, ts ! i) = (sh', t')"
      by (cases "fetch_data cfg (cs i) i (sh, ts ! i)")
    have "P (snd (sh, ts ! i))"
      using ok st True by (simp add: list_all_length)
    then have "P (snd (fetch_data cfg (cs i) i (sh, ts ! i)))"
      by (rule fetch_data_keeps [where P = P, rotated]) (rule step)
    then have "P t'"
      using f by simp
    moreover have "join_thread cfg cs i st = (sh', ts[i := t'])"
      using st True f by (simp add: join_thread_def)
    ultimately show ?thesis
      using ok st by (simp add: list_all_update)
  next
    case False
    then have "join_thread cfg cs i st = st"
      using st by (simp add: join_thread_def)
    with ok show ?thesis
      by simp
  qed
qed

lemma main_keeps:
  assumes step: "\<And>i k sh t. runnable t \<Longrightarrow> P t
                   \<Longrightarrow> P (snd (fetch_call cfg i (calls env i k) (sh, t)))"
    and new: "\<And>q. P (new_thread q)"
    and m: "main cfg env = (res, sh, ts)"
  shows "list_all P ts"
proof (cases "quotas (total_calls cfg) (num_threads cfg)")
  case (Inl e)
  with m show ?thesis
    by (simp add: main_def)
next
  case (Inr qs)
  have start: "list_all P (map new_thread qs)"
    using new by (simp add: list_all_iff)
  have s1: "list_all P (snd (step_thread cfg (calls env) x st))" if "list_all P (snd st)" for x st
    using step that by (rule step_thread_keeps)
  have j1: "list_all P (snd (join_thread cfg (calls env) x st))" if "list_all P (snd st)" for x st
    using step that by (rule join_thread_keeps)
  have "list_all P (snd (run_schedule cfg (calls env) (schedule env)
                           (no_calls, map new_thread qs)))"
    unfolding run_schedule_def
    by (rule fold_keeps [where Q = "\<lambda>st. list_all P (snd st)"]) (simp_all add: s1 start)
  then have "list_all P (snd (join_all cfg (calls env)
                  (run_schedule cfg (calls env) (schedule env) (no_calls, map new_thread qs))))"
    unfolding join_all_def
    by (rule fold_keeps [where Q = "\<lambda>st. list_all P (snd st)", rotated]) (simp add: j1)
  with m Inr show ?thesis
    by (auto simp: main_def split: prod.splits)
qed

lemma run_completes:
  assumes "0 \<le> sleep_time cfg" and "\<And>i k. drains cfg (calls env i k)"
    and "main cfg env = (res, sh, ts)"
  shows "list_all (\<lambda>t. raised t = None) ts"
proof (rule main_keeps [OF _ _ assms(3)])
  show "raised (snd (fetch_call cfg i (calls env i k) (sh, t))) = None"
    if "runnable t" and "raised t = None" for i k sh t
    using assms(1,2) that(2) by (rule fetch_call_no_exception)
  show "raised (new_thread q) = None" for q
    by (simp add: new_thread_def)
qed

section \<open>The claims about a run\<close>

text \<open>
  Claim C2. In every run with \<open>total_calls \<ge> 0\<close> and \<open>num_threads \<ge> 1\<close> in which all
  workers complete their quotas (no thread is ended by an exception), every executed
  call has appended exactly one entry to \<open>response_times\<close>: the number of entries is
  the number of loop iterations the threads have run, and it equals \<open>total_calls\<close>;
  each entry has its printed line. This holds for every interleaving of the threads.
\<close>

theorem recorded_entries_equal_total_calls:
  assumes "0 \<le> total_calls cfg" and "1 \<le> num_threads cfg"
    and "main cfg env = (res, sh, ts)"
    and "list_all (\<lambda>t. raised t = None) ts"
  shows "int (length (response_times sh)) = total_calls cfg
         \<and> length (response_times sh) = sum_list (map call_num ts)
         \<and> length (printed sh) = length (response_times sh)"
proof -
  obtain qs where q: "quotas (total_calls cfg) (num_threads cfg) = Inr qs"
    and s: "sum_list qs = total_calls cfg"
    using sum_quotas_exact [of "num_threads cfg" "total_calls cfg"] assms(2) by auto
  note run = main_run [OF q assms(3)]
  have each: "call_num t = nat (num_calls t) \<and> entries_of t = nat (num_calls t)"
    if "t \<in> set ts" for t
    using that run(2,4) assms(4) completed_thread [of t]
    by (simp add: run_ok_def list_all_iff)
  then have e: "map entries_of ts = map nat qs" and c: "map call_num ts = map nat qs"
    using run(3) by auto
  have len: "length (response_times sh) = sum_list (map nat qs)"
    and pr: "length (printed sh) = sum_list (map nat qs)"
    using run(2) e by (simp_all add: run_ok_def)
  have "int (sum_list (map nat qs)) = total_calls cfg"
    using sum_list_nat [OF quotas_nonneg [OF assms(1,2) q]] s by simp
  with len pr c show ?thesis
    by simp
qed

theorem recorded_entries_equal_total_calls_witness:
  "0 \<le> total_calls (command_line 3 2) \<and> 1 \<le> num_threads (command_line 3 2)
   \<and> list_all (\<lambda>t. raised t = None) (snd (snd (main (command_line 3 2) mixed_env)))
   \<and> int (length (response_times (fst (snd (main (command_line 3 2) mixed_env))))) = 3"
proof -
  have a: "0 \<le> total_calls (command_line 3 2)" and b: "1 \<le> num_threads (command_line 3 2)"
    by (simp_all add: command_line_def)
  have c: "list_all (\<lambda>t. raised t = None) (snd (snd (main (command_line 3 2) mixed_env)))"
    by code_simp
  have d: "main (command_line 3 2) mixed_env
             = (fst (main (command_line 3 2) mixed_env),
                fst (snd (main (command_line 3 2) mixed_env)),
                snd (snd (main (command_line 3 2) mixed_env)))"
    by simp
  from recorded_entries_equal_total_calls [OF a b d c] a b c show ?thesis
    by (simp add: command_line_def)
qed

text \<open>
  Claim C3. No error raised during a call is fatal to its worker: whatever happens
  to a call, also while its response body is processed, the worker records the call
  and goes on with the rest of its quota. The code does not do this for a body that
  is not UTF-8: with a quota of 2 and \<open>keep_connects_open\<close> unset, the worker is ended
  by \<open>UnicodeDecodeError\<close> during its first call, records nothing and never issues
  its second call, and the report is made from no entries.
\<close>

theorem undecodable_body_ends_worker:
  "main (command_line 2 1) (env_of undecodable_call 0 1) =
     (Inr \<lparr>total_thread_count = 1, total_time = 1, average_response_time = 0,
           requests_per_second = 2\<rparr>,
      \<lparr>response_times = [], printed = []\<rparr>,
      [\<lparr>num_calls = 2, call_num = 0,
        issued = [session_get ''http://localhost/'' ''close'' (10, 30) False],
        slept = [], raised = Some UnicodeDecodeError\<rparr>])"
  by code_simp

text \<open>
  Claim C4. Every GET is issued with the configured request timeout bounding the wait
  for the response and the configured connect timeout bounding the establishment of
  the connection. The code passes the two in the other order: under the default
  configuration (request timeout 10 s, connect timeout 30 s) the request is issued
  with a connect timeout of 10 s and a read timeout of 30 s.
\<close>

theorem timeouts_swapped:
  "request_time_out (default_config ''http://localhost/'') = 10
   \<and> connect_time_out (default_config ''http://localhost/'') = 30
   \<and> map (\<lambda>r. (req_connect_timeout r, req_read_timeout r))
        (issued (snd (fetch_call (default_config ''http://localhost/'') 0 ok_call
                        (no_calls, new_thread 1)))) = [(10, 30)]"
  by code_simp

text \<open>
  Claim C5, as amended. The sleep of line 66 follows every call, the last one
  included: in every run, a worker with quota \<open>q\<close> that is not ended by an exception
  has slept exactly \<open>max q 0\<close> times.
\<close>

theorem sleeps_after_every_call:
  assumes "quotas (total_calls cfg) (num_threads cfg) = Inr qs"
    and "main cfg env = (res, sh, ts)"
    and "i < length ts" and "raised (ts ! i) = None"
  shows "num_calls (ts ! i) = qs ! i \<and> int (length (slept (ts ! i))) = max (qs ! i) 0"
proof -
  note run = main_run [OF assms(1,2)]
  have ok: "thread_ok (ts ! i)" and ended: "\<not> runnable (ts ! i)"
    using run(2,4) assms(3) by (simp_all add: run_ok_def list_all_length)
  have "num_calls (ts ! i) = qs ! i"
    using run(3) assms(3) by (metis nth_map)
  with completed_thread(3) [OF ok ended assms(4)] show ?thesis
    by simp
qed

theorem sleeps_after_every_call_witness:
  "quotas (total_calls (command_line 3 2)) (num_threads (command_line 3 2)) = Inr [2, 1]
   \<and> 0 < length (snd (snd (main (command_line 3 2) mixed_env)))
   \<and> raised (snd (snd (main (command_line 3 2) mixed_env)) ! 0) = None
   \<and> num_calls (snd (snd (main (command_line 3 2) mixed_env)) ! 0) = 2
   \<and> int (length (slept (snd (snd (main (command_line 3 2) mixed_env)) ! 0))) = 2"
proof -
  have a: "quotas (total_calls (command_line 3 2)) (num_threads (command_line 3 2)) = Inr [2, 1]"
    by code_simp
  have b: "main (command_line 3 2) mixed_env
             = (fst (main (command_line 3 2) mixed_env),
                fst (snd (main (command_line 3 2) mixed_env)),
                snd (snd (main (command_line 3 2) mixed_env)))"
    by simp
  have c: "0 < length (snd (snd (main (command_line 3 2) mixed_env)))"
    by code_simp
  have d: "raised (snd (snd (main (command_line 3 2) mixed_env)) ! 0) = None"
    by code_simp
  from sleeps_after_every_call [OF a b c d] a c d show ?thesis
    by simp
qed

text \<open>
  Claim C5 as stated fails: a worker with quota 1 completes its quota and has slept
  once, not \<open>max (1 - 1) 0 = 0\<close> times.
\<close>

theorem sleep_after_last_call:
  "raised (snd (snd (main (command_line 1 1) (env_of ok_call 0 1))) ! 0) = None
   \<and> num_calls (snd (snd (main (command_line 1 1) (env_of ok_call 0 1))) ! 0) = 1
   \<and> int (length (slept (snd (snd (main (command_line 1 1) (env_of ok_call 0 1))) ! 0)))
       \<noteq> max (num_calls (snd (snd (main (command_line 1 1) (env_of ok_call 0 1))) ! 0) - 1) 0"
  by code_simp

text \<open>
  Claim C6. The report gives the mean of the recorded entries (0 when there is none)
  and \<open>total_calls\<close> divided by the elapsed time, the division being guarded when the
  elapsed time is 0. The code guards the mean only: when the clock reads the same at
  lines 164 and 183, as it can in a run of no calls, \<open>main\<close> ends in
  \<open>ZeroDivisionError\<close> after the threads have been joined, and reports nothing.
\<close>

theorem zero_elapsed_time_raises:
  "main (command_line 0 1) (env_of ok_call 5 5) =
     (Inl ZeroDivisionError, \<lparr>response_times = [], printed = []\<rparr>, [new_thread 0])"
  by code_simp

text \<open>
  Claim C8. Every completed HTTP exchange is classified by its status code (success
  exactly for 200) and has its response time recorded. The code does so only once
  the body has been drained: an exchange that completes with status 200 and a body
  that is not UTF-8 prints no line and records no entry.
\<close>

theorem undecodable_body_not_recorded:
  "fetch_call (default_config ''http://localhost/'') 0
     \<lparr>call_start_time = 0, get_result = Response 200 [0xFF], call_end_time = 1 / 4\<rparr>
     (\<lparr>response_times = [], printed = []\<rparr>, new_thread 1) =
     (\<lparr>response_times = [], printed = []\<rparr>,
      \<lparr>num_calls = 1, call_num = 0,
       issued = [session_get ''http://localhost/'' ''close'' (10, 30) False],
       slept = [], raised = Some UnicodeDecodeError\<rparr>)"
  by code_simp

text \<open>
  Claim C9. With \<open>num_threads = 0\<close> the division of line 148 raises
  \<open>ZeroDivisionError\<close>: \<open>main\<close> ends with it before any thread exists, so no request is
  issued and nothing is recorded.
\<close>

theorem zero_threads_raise:
  assumes "num_threads cfg = 0"
  shows "main cfg env = (Inl ZeroDivisionError, \<lparr>response_times = [], printed = []\<rparr>, [])"
  using assms by (simp add: main_def quotas_def py_floordiv_def no_calls_def)

theorem zero_threads_raise_witness:
  "num_threads (command_line 10 0) = 0
   \<and> main (command_line 10 0) (env_of ok_call 0 1)
       = (Inl ZeroDivisionError, \<lparr>response_times = [], printed = []\<rparr>, [])"
  using zero_threads_raise [of "command_line 10 0" "env_of ok_call 0 1"]
  by (simp add: command_line_def)

text \<open>
  Claim C10. With \<open>total_calls < 0\<close> and \<open>num_threads \<ge> 1\<close> every quota is at most 0, no
  call is made, nothing is recorded, and the run produces a report without raising.
  The last part fails in the code when the clock reads the same at lines 164 and 183
  (the unguarded division of claim C6): with \<open>total_calls = -5\<close> and two threads the
  quotas are \<open>-2\<close> and \<open>-3\<close>, nothing is recorded, and \<open>main\<close> ends in
  \<open>ZeroDivisionError\<close>.
\<close>

theorem negative_total_zero_elapsed_time_raises:
  "main (command_line (- 5) 2) (env_of ok_call 5 5) =
     (Inl ZeroDivisionError, \<lparr>response_times = [], printed = []\<rparr>,
      [new_thread (- 2), new_thread (- 3)])"
  by code_simp

end
